theory Spec2Isabelle
  imports Complex_Main
begin

section \<open>Data model (types.ts)\<close>

text \<open>
  The enums of the repository become datatypes, its interfaces records. A record field
  is a global constant, so the fields \<open>id\<close>, \<open>text\<close> and \<open>type\<close> of \<open>Clue\<close> and
  \<open>Option\<close> carry the name of their interface as a prefix. Clue ids, levels and XP
  amounts are JavaScript numbers that hold integers: \<open>int\<close>.
\<close>

datatype Difficulty = Easy | Medium | Hard

datatype ClueType = Observation | Testimony | Physical | Context

record Clue =
  clue_id :: int
  clue_text :: string
  clue_type :: ClueType
  isRedHerring :: bool

record SuspectOption =
  option_id :: string
  option_text :: string

record MysteryCase =
  title :: string
  scenario :: string
  difficulty :: Difficulty
  clues :: "Clue list"
  options :: "SuspectOption list"
  correctOptionId :: string
  explanation :: string

record User =
  username :: string
  level :: int
  currentXP :: int
  xpToNextLevel :: int
  casesSolved :: int
  totalXp :: int

datatype GameState = Auth | Idle | Loading | Playing | Solving | Success | Failure | Error

section \<open>The state of the App component (App.tsx, lines 41-68)\<close>

text \<open>
  One field for each \<open>useState\<close> cell that the game logic reads or writes
  (\<open>loadingMsg\<close> is presentation only and is left out). Four further fields record
  the effects that leave the component: \<open>generateCalls\<close> holds the arguments of the
  calls of \<open>generateMystery\<close> that have not settled yet, \<open>hintCalls\<close> counts the
  calls of \<open>getHint\<close> that have not settled, \<open>addXpCalls\<close> logs the amount of every
  call of \<open>authService.addXp\<close> in order, \<open>addXpPending\<close> counts those not
  settled yet, and \<open>levelUpTimers\<close> counts the timeouts scheduled at line 203 that have
  not fired.
\<close>

record App =
  user :: "User option"
  gameState :: GameState
  mystery :: "MysteryCase option"
  revealedClues :: "int list"
  lockedClues :: "int list"
  activePuzzleClueId :: "int option"
  isCelebrating :: bool
  selectedDifficulty :: Difficulty
  hint :: "string option"
  isHintLoading :: bool
  selectedOption :: "string option"
  error :: "string option"
  showLevelUp :: bool
  xpGained :: int
  generateCalls :: "Difficulty list"
  hintCalls :: nat
  addXpCalls :: "int list"
  addXpPending :: nat
  levelUpTimers :: nat

definition initialApp :: App where
  "initialApp =
     \<lparr> user = None, gameState = Auth, mystery = None, revealedClues = [],
       lockedClues = [], activePuzzleClueId = None, isCelebrating = False,
       selectedDifficulty = Easy, hint = None, isHintLoading = False,
       selectedOption = None, error = None, showLevelUp = False, xpGained = 0,
       generateCalls = [], hintCalls = 0, addXpCalls = [], addXpPending = 0,
       levelUpTimers = 0 \<rparr>"

text \<open>
  JavaScript truthiness of a \<open>string | null\<close> value, as tested by \<open>!selectedOption\<close>,
  \<open>!hint\<close> and \<open>error &&\<close>: \<open>null\<close> and the empty string are falsy.
\<close>

fun truthy :: "string option \<Rightarrow> bool" where
  "truthy None = False"
| "truthy (Some s) = (s \<noteq> [])"

section \<open>Clue gate (App.tsx, lines 144-164)\<close>

text \<open>
  \<open>revealClue\<close>: \<open>if (!revealedClues.includes(clueId)) setRevealedClues(prev => [...prev, clueId])\<close>.
\<close>

definition revealClue :: "int \<Rightarrow> App \<Rightarrow> App" where
  "revealClue clueId st =
     (if clueId \<notin> set (revealedClues st)
      then st\<lparr>revealedClues := revealedClues st @ [clueId]\<rparr>
      else st)"

definition handleClueClick :: "int \<Rightarrow> App \<Rightarrow> App" where
  "handleClueClick clueId st =
     (if clueId \<in> set (lockedClues st)
      then st\<lparr>activePuzzleClueId := Some clueId\<rparr>
      else revealClue clueId st)"

text \<open>
  \<open>handlePuzzleSuccess\<close>: when a puzzle clue is active, it is filtered out of
  \<open>lockedClues\<close>, then \<open>revealClue\<close> runs for it, then the active id is cleared.
  There is no test that the id was locked.
\<close>

definition handlePuzzleSuccess :: "App \<Rightarrow> App" where
  "handlePuzzleSuccess st =
     (case activePuzzleClueId st of
        None \<Rightarrow> st
      | Some a \<Rightarrow>
          (revealClue a (st\<lparr>lockedClues := filter (\<lambda>i. i \<noteq> a) (lockedClues st)\<rparr>))
            \<lparr>activePuzzleClueId := None\<rparr>)"

text \<open>The puzzle modal's \<open>onClose\<close> (lines 573 and 578).\<close>

definition closePuzzle :: "App \<Rightarrow> App" where
  "closePuzzle st = st\<lparr>activePuzzleClueId := None\<rparr>"

section \<open>Starting a case (App.tsx, lines 108-142)\<close>

text \<open>
  \<open>startGame\<close> is asynchronous. Its part before \<open>await generateMystery(difficulty)\<close>
  is \<open>startGame\<close> below; the part after the await is \<open>startGame_fulfilled\<close> when the
  promise is fulfilled and \<open>startGame_rejected\<close> (the \<open>catch\<close> block) when it is
  rejected. Both continuations see the \<open>difficulty\<close> argument of their own call.
\<close>

definition startGame :: "Difficulty \<Rightarrow> App \<Rightarrow> App" where
  "startGame d st =
     st\<lparr> gameState := Loading, selectedDifficulty := d, revealedClues := [],
         lockedClues := [], hint := None, selectedOption := None, error := None,
         isCelebrating := False, generateCalls := generateCalls st @ [d] \<rparr>"

text \<open>
  Lines 124-132. \<open>Math.random()\<close> is the argument \<open>rnd\<close>: \<open>rnd k\<close> is the value
  of the \<open>k\<close>-th call made inside the \<open>forEach\<close>. Because of the short-circuit
  \<open>&&\<close> a call is made for a lockable clue only. The loop state is the array
  \<open>locks\<close> and the number of calls made so far.

  \<open>Math.random()\<close> returns a finite IEEE double in \<open>[0, 1)\<close>, and \<open><\<close> on finite
  doubles is the order of the rational numbers they stand for: a draw is the real
  number that the double stands for. The literals \<open>0.6\<close> and \<open>0.4\<close> of line 128
  are doubles too, the ones nearest to 6/10 and 4/10:
  \<open>5404319552844595 / 2^53\<close> and \<open>3602879701896397 / 2^53\<close>, where
  \<open>2^53 = 9007199254740992\<close>.
\<close>

definition isLockable :: "Clue \<Rightarrow> bool" where
  "isLockable clue = (clue_type clue = Physical \<or> clue_type clue = Testimony)"

definition chance :: "Difficulty \<Rightarrow> real" where
  "chance d =
     (if d = Hard then 5404319552844595 / 9007199254740992
      else 3602879701896397 / 9007199254740992)"

fun forEachClue :: "Difficulty \<Rightarrow> (nat \<Rightarrow> real) \<Rightarrow> Clue list \<Rightarrow> int list \<times> nat \<Rightarrow> int list \<times> nat" where
  "forEachClue d rnd [] (locks, k) = (locks, k)"
| "forEachClue d rnd (clue # rest) (locks, k) =
     (if isLockable clue
      then (if rnd k < chance d
            then forEachClue d rnd rest (locks @ [clue_id clue], Suc k)
            else forEachClue d rnd rest (locks, Suc k))
      else forEachClue d rnd rest (locks, k))"

definition computeLocks :: "Difficulty \<Rightarrow> (nat \<Rightarrow> real) \<Rightarrow> Clue list \<Rightarrow> int list" where
  "computeLocks d rnd cs = fst (forEachClue d rnd cs ([], 0))"

definition startGame_fulfilled :: "Difficulty \<Rightarrow> MysteryCase \<Rightarrow> (nat \<Rightarrow> real) \<Rightarrow> App \<Rightarrow> App" where
  "startGame_fulfilled d newCase rnd st =
     st\<lparr> lockedClues := computeLocks d rnd (clues newCase),
         mystery := Some newCase, gameState := Playing \<rparr>"

definition startGame_rejected :: "App \<Rightarrow> App" where
  "startGame_rejected st =
     st\<lparr> error := Some ''Failed to contact headquarters. The AI service might be busy or configured incorrectly.'',
         gameState := Idle \<rparr>"

section \<open>Hints (App.tsx, lines 166-177)\<close>

definition fetchHint :: "App \<Rightarrow> App" where
  "fetchHint st =
     (if mystery st = None then st
      else st\<lparr>isHintLoading := True, hintCalls := Suc (hintCalls st)\<rparr>)"

text \<open>The continuation: \<open>Some hintText\<close> for a fulfilled request, \<open>None\<close> for a rejected one.\<close>

definition fetchHint_settled :: "string option \<Rightarrow> App \<Rightarrow> App" where
  "fetchHint_settled r st =
     st\<lparr> hint := Some (case r of
                        Some hintText \<Rightarrow> hintText
                      | None \<Rightarrow> ''The connection is fuzzy. I can't get a hint right now.''),
         isHintLoading := False \<rparr>"

section \<open>Submitting a solution (App.tsx, lines 179-217)\<close>

text \<open>
  The \<open>switch\<close> of lines 189-194 on \<open>mystery.difficulty\<close>. The variable
  \<open>xp\<close> starts at 0 and the switch has a case for each of the three values of the
  enum, so the initial 0 is never the result.
\<close>

fun xp :: "Difficulty \<Rightarrow> int" where
  "xp Easy = 50"
| "xp Medium = 100"
| "xp Hard = 200"

text \<open>
  \<open>submitSolution\<close> up to \<open>await authService.addXp(xp)\<close>. The guard of line 180 is
  JavaScript's \<open>!\<close>: it returns for \<open>null\<close> and for the empty string alike.
\<close>

definition submitSolution :: "App \<Rightarrow> App" where
  "submitSolution st =
     (if \<not> truthy (selectedOption st) then st
      else case mystery st of
        None \<Rightarrow> st
      | Some m \<Rightarrow>
          (if selectedOption st = Some (correctOptionId m)
           then st\<lparr> gameState := Playing, isCelebrating := True,
                    xpGained := xp (difficulty m),
                    addXpCalls := addXpCalls st @ [xp (difficulty m)],
                    addXpPending := Suc (addXpPending st) \<rparr>
           else st\<lparr>gameState := Failure\<rparr>))"

text \<open>
  After the await: \<open>Some (result.user, result.leveledUp)\<close> when \<open>addXp\<close> is
  fulfilled, \<open>None\<close> when it is rejected (the \<open>catch\<close> block only logs).
\<close>

definition submitSolution_settled :: "(User \<times> bool) option \<Rightarrow> App \<Rightarrow> App" where
  "submitSolution_settled r st =
     (case r of
        None \<Rightarrow> st
      | Some (u, leveledUp) \<Rightarrow>
          st\<lparr> user := Some u,
              levelUpTimers := (if leveledUp then Suc (levelUpTimers st) else levelUpTimers st) \<rparr>)"

definition handleCelebrationComplete :: "App \<Rightarrow> App" where
  "handleCelebrationComplete st = st\<lparr>isCelebrating := False, gameState := Success\<rparr>"

definition resetGame :: "App \<Rightarrow> App" where
  "resetGame st = st\<lparr>gameState := Idle, mystery := None\<rparr>"

section \<open>Authentication handlers and inline handlers\<close>

definition handleLogin :: "User \<Rightarrow> App \<Rightarrow> App" where
  "handleLogin loggedInUser st = st\<lparr>user := Some loggedInUser, gameState := Idle\<rparr>"

definition handleLogout :: "App \<Rightarrow> App" where
  "handleLogout st = st\<lparr>user := None, gameState := Auth, mystery := None\<rparr>"

text \<open>
  The effect of lines 71-83, run once when the component mounts: \<open>currentUser\<close> is
  what \<open>authService.getCurrentUser()\<close> returns and \<open>hasApiKey\<close> is \<open>!!process.env.API_KEY\<close>.
\<close>

definition mount :: "User option \<Rightarrow> bool \<Rightarrow> App" where
  "mount currentUser hasApiKey =
     (let st = (case currentUser of
                  Some u \<Rightarrow> initialApp\<lparr>user := Some u, gameState := Idle\<rparr>
                | None \<Rightarrow> initialApp\<lparr>gameState := Auth\<rparr>)
      in if hasApiKey then st
         else st\<lparr>error := Some ''Missing API Key. Please provide a valid API Key in the environment.''\<rparr>)"

text \<open>The inline handlers \<open>() => setGameState(...)\<close> of lines 244, 556, 587, 674, 686 and 690.\<close>

definition setGameState :: "GameState \<Rightarrow> App \<Rightarrow> App" where
  "setGameState g st = st\<lparr>gameState := g\<rparr>"

text \<open>The "I Give Up (Reveal Answer)" button of the failure modal, lines 690-692.\<close>

definition revealAnswer :: "App \<Rightarrow> App" where
  "revealAnswer st = setGameState Success st"

section \<open>The component as a transition system\<close>

text \<open>
  What the render function of lines 232-719 shows decides which handlers can run. The
  login screen replaces everything while \<open>gameState\<close> is \<open>Auth\<close> (line 232), the
  error card replaces everything under the test of line 236, and the main screen is
  rendered otherwise.
\<close>

definition authScreen :: "App \<Rightarrow> bool" where
  "authScreen st = (gameState st = Auth)"

definition errorScreen :: "App \<Rightarrow> bool" where
  "errorScreen st =
     (gameState st \<noteq> Auth \<and> truthy (error st) \<and> mystery st = None \<and> gameState st \<noteq> Idle)"

definition mainScreen :: "App \<Rightarrow> bool" where
  "mainScreen st = (\<not> authScreen st \<and> \<not> errorScreen st)"

text \<open>The test of line 388, under which the evidence board and its buttons are rendered.\<close>

definition caseBoard :: "App \<Rightarrow> bool" where
  "caseBoard st =
     (mainScreen st \<and> mystery st \<noteq> None \<and>
      (gameState st = Playing \<or> gameState st = Solving \<or> gameState st = Success \<or>
       gameState st = Failure))"

definition clueIds :: "App \<Rightarrow> int list" where
  "clueIds st = (case mystery st of None \<Rightarrow> [] | Some m \<Rightarrow> map clue_id (clues m))"

definition optionIds :: "App \<Rightarrow> string list" where
  "optionIds st = (case mystery st of None \<Rightarrow> [] | Some m \<Rightarrow> map option_id (options m))"

text \<open>
  The events of a session: the clicks of the player and the completions of the
  asynchronous calls and timers. \<open>GenerateFulfilled n newCase rnd\<close> and
  \<open>GenerateRejected n\<close> settle the \<open>n\<close>-th outstanding call of \<open>generateMystery\<close>
  (nothing cancels a call, so several can be outstanding).
\<close>

datatype Event =
    LoggedIn User
  | LogoutClicked
  | DifficultyClicked Difficulty
  | GenerateFulfilled nat MysteryCase "nat \<Rightarrow> real"
  | GenerateRejected nat
  | ClueClicked int
  | PuzzleSolved
  | PuzzleClosed
  | HintClicked
  | HintSettled "string option"
  | SolveClicked
  | SolvingClosed
  | OptionClicked string
  | ConfirmClicked
  | AddXpSettled "(User \<times> bool) option"
  | CelebrationCompleted
  | LevelUpTimerFired
  | LevelUpClosed
  | NextCaseClicked
  | DashboardClicked
  | ReExamineClicked
  | RevealAnswerClicked
  | ErrorBackClicked

definition dropCall :: "nat \<Rightarrow> App \<Rightarrow> App" where
  "dropCall n st = st\<lparr>generateCalls := take n (generateCalls st) @ drop (Suc n) (generateCalls st)\<rparr>"

text \<open>
  One event. An event whose control is not rendered, or is rendered with a true
  \<open>disabled\<close> prop, leaves the state as it is; so does the completion of a call that
  is not outstanding. The guards are the conditional renderings and \<open>disabled\<close>
  props written in App.tsx. The \<open>Modal\<close> component is not among the sources, so no
  guard relies on a closed modal hiding its buttons: the controls inside a modal are
  taken to be able to fire whenever the main screen is rendered, which can only add
  behaviours.
\<close>

fun step :: "Event \<Rightarrow> App \<Rightarrow> App" where
  "step (LoggedIn u) st = (if authScreen st then handleLogin u st else st)"
| "step LogoutClicked st = (if mainScreen st then handleLogout st else st)"
| "step (DifficultyClicked d) st =
     (if mainScreen st \<and> gameState st = Idle then startGame d st else st)"
| "step (GenerateFulfilled n newCase rnd) st =
     (if n < length (generateCalls st)
      then startGame_fulfilled (generateCalls st ! n) newCase rnd (dropCall n st)
      else st)"
| "step (GenerateRejected n) st =
     (if n < length (generateCalls st) then startGame_rejected (dropCall n st) else st)"
| "step (ClueClicked i) st =
     (if caseBoard st \<and> i \<in> set (clueIds st) \<and>
         \<not> (i \<in> set (revealedClues st) \<or> gameState st \<noteq> Playing)
      then handleClueClick i st else st)"
| "step PuzzleSolved st = (if mainScreen st then handlePuzzleSuccess st else st)"
| "step PuzzleClosed st = (if mainScreen st then closePuzzle st else st)"
| "step HintClicked st =
     (if caseBoard st \<and> gameState st = Playing \<and> \<not> truthy (hint st) \<and>
         \<not> (length (revealedClues st) = 0)
      then fetchHint st else st)"
| "step (HintSettled r) st =
     (if 0 < hintCalls st then fetchHint_settled r (st\<lparr>hintCalls := hintCalls st - 1\<rparr>) else st)"
| "step SolveClicked st =
     (if caseBoard st \<and> gameState st = Playing \<and> \<not> (length (revealedClues st) < 1)
      then setGameState Solving st else st)"
| "step SolvingClosed st = (if mainScreen st then setGameState Playing st else st)"
| "step (OptionClicked s) st =
     (if mainScreen st \<and> s \<in> set (optionIds st) then st\<lparr>selectedOption := Some s\<rparr> else st)"
| "step ConfirmClicked st =
     (if mainScreen st \<and> truthy (selectedOption st) then submitSolution st else st)"
| "step (AddXpSettled r) st =
     (if 0 < addXpPending st
      then submitSolution_settled r (st\<lparr>addXpPending := addXpPending st - 1\<rparr>) else st)"
| "step CelebrationCompleted st =
     (if mainScreen st \<and> isCelebrating st then handleCelebrationComplete st else st)"
| "step LevelUpTimerFired st =
     (if 0 < levelUpTimers st
      then st\<lparr>showLevelUp := True, levelUpTimers := levelUpTimers st - 1\<rparr> else st)"
| "step LevelUpClosed st = (if mainScreen st then st\<lparr>showLevelUp := False\<rparr> else st)"
| "step NextCaseClicked st =
     (if mainScreen st then startGame (selectedDifficulty st) st else st)"
| "step DashboardClicked st = (if mainScreen st then resetGame st else st)"
| "step ReExamineClicked st = (if mainScreen st then setGameState Playing st else st)"
| "step RevealAnswerClicked st = (if mainScreen st then revealAnswer st else st)"
| "step ErrorBackClicked st = (if errorScreen st then setGameState Idle st else st)"

text \<open>A session: the events in order, from left to right.\<close>

fun run :: "Event list \<Rightarrow> App \<Rightarrow> App" where
  "run [] st = st"
| "run (e # es) st = run es (step e st)"




section \<open>Notions used in the statements\<close>

text \<open>
  \<open>drawn d rnd k ls\<close>: the clues of \<open>ls\<close> whose own draw is below the chance of
  the difficulty, when the first clue of \<open>ls\<close> receives draw number \<open>k\<close>, the second
  draw number \<open>k + 1\<close>, and so on.
\<close>

definition drawn :: "Difficulty \<Rightarrow> (nat \<Rightarrow> real) \<Rightarrow> nat \<Rightarrow> Clue list \<Rightarrow> Clue list" where
  "drawn d rnd k ls = map fst (filter (\<lambda>(c, j). rnd j < chance d) (zip ls [k..<k + length ls]))"

text \<open>
  Probabilities. \<open>Math.random()\<close> is taken to be uniform over a finite set \<open>D\<close>
  of doubles and its draws to be independent: each of the lists of \<open>n\<close> draws from
  \<open>D\<close> is as likely as any other. \<open>prob D n E\<close> is then the probability of the
  event \<open>E\<close> of \<open>n\<close> draws, the number of the lists in \<open>E\<close> over the number
  of all lists. \<open>grid53\<close> is the set of the \<open>2^53\<close> doubles \<open>j / 2^53\<close> of
  \<open>[0, 1)\<close>, the values of a generator of 53 random bits. \<open>lockChance D d\<close> is the
  probability that one draw from \<open>D\<close> is below the chance of the difficulty \<open>d\<close>.
\<close>

definition prob :: "real set \<Rightarrow> nat \<Rightarrow> (real list \<Rightarrow> bool) \<Rightarrow> real" where
  "prob D n E =
     real (card {rs. length rs = n \<and> set rs \<subseteq> D \<and> E rs}) /
     real (card {rs. length rs = n \<and> set rs \<subseteq> D})"

definition lockChance :: "real set \<Rightarrow> Difficulty \<Rightarrow> real" where
  "lockChance D d = real (card {r \<in> D. r < chance d}) / real (card D)"

definition grid53 :: "real set" where
  "grid53 = (\<lambda>j. real j / 9007199254740992) ` {j::nat. j < 9007199254740992}"

text \<open>
  \<open>correctSolve e st\<close> is \<open>Some r\<close> when the event \<open>e\<close> in the state \<open>st\<close> is a
  submission of the correct suspect, \<open>r\<close> being the reward of the case, and \<open>None\<close> for
  every other event. \<open>lastReward es st r\<close> is the reward of the last correct
  submission in the session \<open>es\<close> started in \<open>st\<close>, and \<open>r\<close> if there is none.
\<close>

definition correctSolve :: "Event \<Rightarrow> App \<Rightarrow> int option" where
  "correctSolve e st =
     (case e of
        ConfirmClicked \<Rightarrow>
          (if mainScreen st \<and> truthy (selectedOption st)
           then (case mystery st of
                   None \<Rightarrow> None
                 | Some m \<Rightarrow> if selectedOption st = Some (correctOptionId m)
                             then Some (xp (difficulty m)) else None)
           else None)
      | _ \<Rightarrow> None)"

fun lastReward :: "Event list \<Rightarrow> App \<Rightarrow> int \<Rightarrow> int" where
  "lastReward [] st r = r"
| "lastReward (e # es) st r =
     lastReward es (step e st) (case correctSolve e st of Some x \<Rightarrow> x | None \<Rightarrow> r)"

section \<open>A sample case and sample sessions\<close>

definition rookie :: User where
  "rookie = \<lparr> username = ''holmes'', level = 1, currentXP = 0, xpToNextLevel = 100,
               casesSolved = 0, totalXp = 0 \<rparr>"

text \<open>A case of four clues, one of each type, whose suspects have the ids \<open>ids\<close>.\<close>

definition lineupCase :: "Difficulty \<Rightarrow> string list \<Rightarrow> string \<Rightarrow> MysteryCase" where
  "lineupCase d ids correct =
     \<lparr> title = ''The Missing Donut'', scenario = ''A donut is gone.'', difficulty = d,
       clues =
         [\<lparr>clue_id = 1, clue_text = ''Crumbs on the desk'', clue_type = Observation, isRedHerring = False\<rparr>,
          \<lparr>clue_id = 2, clue_text = ''The janitor saw nothing'', clue_type = Testimony, isRedHerring = True\<rparr>,
          \<lparr>clue_id = 3, clue_text = ''A sticky napkin'', clue_type = Physical, isRedHerring = False\<rparr>,
          \<lparr>clue_id = 4, clue_text = ''It was a Monday'', clue_type = Context, isRedHerring = False\<rparr>],
       options = map (\<lambda>i. \<lparr>option_id = i, option_text = ''Suspect''\<rparr>) ids,
       correctOptionId = correct, explanation = ''The chief ate it.'' \<rparr>"

definition donutCase :: MysteryCase where
  "donutCase = lineupCase Hard [''A'', ''B''] ''B''"

text \<open>
  Two cases in which one suspect has the empty string as its id: in \<open>blankCorrect\<close>
  that suspect is the culprit, in \<open>blankWrong\<close> the other one is.
\<close>

definition blankCorrect :: MysteryCase where
  "blankCorrect = lineupCase Hard [[], ''B''] []"

definition blankWrong :: MysteryCase where
  "blankWrong = lineupCase Hard [[], ''B''] ''B''"

text \<open>Draws of \<open>Math.random()\<close>: the first is 0.5, every later one 0.875.\<close>

definition draws :: "nat \<Rightarrow> real" where
  "draws k = (if k = 0 then 0.5 else 0.875)"

text \<open>
  A logged-in player starts the case \<open>c\<close>, reveals clue 1 and opens the suspect
  lineup; in \<open>lineup c pick\<close> the player has then clicked the suspect \<open>pick\<close>.
\<close>

definition toLineup :: "MysteryCase \<Rightarrow> Event list" where
  "toLineup c =
     [DifficultyClicked (difficulty c), GenerateFulfilled 0 c draws, ClueClicked 1, SolveClicked]"

definition lineup :: "MysteryCase \<Rightarrow> string \<Rightarrow> App" where
  "lineup c pick = run (toLineup c @ [OptionClicked pick]) (mount (Some rookie) True)"

text \<open>
  The player clicks the sealed clue 2, which opens the puzzle modal, then signs out,
  signs in and starts another case: the puzzle clue is still active while the new
  case loads.
\<close>

definition staleModal :: App where
  "staleModal =
     run [DifficultyClicked Hard, GenerateFulfilled 0 donutCase draws, ClueClicked 2,
          LogoutClicked, LoggedIn rookie, DifficultyClicked Hard]
       (mount (Some rookie) True)"




text \<open>
  The player solves the case, goes on to the next case, accuses the wrong suspect and
  gives up.
\<close>

definition solveThenGiveUp :: "Event list" where
  "solveThenGiveUp =
     toLineup donutCase @
     [OptionClicked ''B'', ConfirmClicked, AddXpSettled None, CelebrationCompleted,
      NextCaseClicked, GenerateFulfilled 0 (lineupCase Easy [''A'', ''B''] ''B'') draws,
      ClueClicked 1, SolveClicked, OptionClicked ''A'', ConfirmClicked]"

lemmas handler_defs =
  handleLogin_def handleLogout_def startGame_def startGame_fulfilled_def startGame_rejected_def
  dropCall_def handleClueClick_def revealClue_def handlePuzzleSuccess_def closePuzzle_def
  fetchHint_def fetchHint_settled_def setGameState_def submitSolution_def
  submitSolution_settled_def handleCelebrationComplete_def resetGame_def revealAnswer_def

lemmas eval_defs =
  lineup_def toLineup_def lineupCase_def donutCase_def
  rookie_def draws_def mount_def initialApp_def Let_def
  authScreen_def errorScreen_def mainScreen_def caseBoard_def clueIds_def optionIds_def
  computeLocks_def isLockable_def chance_def handler_defs

section \<open>The clue gate keeps revealed and sealed clues apart\<close>








section \<open>A puzzle success for a clue that is not locked\<close>

text \<open>
  In \<open>staleModal\<close> clue 2 is the active puzzle clue and is neither locked nor
  revealed; \<open>handlePuzzleSuccess\<close> reveals it.
\<close>

theorem puzzle_success_reveals_unlocked:
  "activePuzzleClueId staleModal = Some 2 \<and> 2 \<notin> set (lockedClues staleModal) \<and>
   revealedClues staleModal = [] \<and> revealedClues (handlePuzzleSuccess staleModal) = [2]"
  by (simp add: staleModal_def eval_defs)

text \<open>
  C2, as the code has it. When the active puzzle clue is not locked,
  \<open>handlePuzzleSuccess\<close> leaves the locked ids as they are and appends the clue to
  the revealed ids unless it is revealed already, in which case the revealed ids do not
  change either. The function is total: there is no error path.
\<close>

theorem puzzle_success_unlocked:
  assumes "activePuzzleClueId st = Some a" and "a \<notin> set (lockedClues st)"
  shows "lockedClues (handlePuzzleSuccess st) = lockedClues st \<and>
         revealedClues (handlePuzzleSuccess st) =
           (if a \<in> set (revealedClues st) then revealedClues st else revealedClues st @ [a])"
proof -
  from assms(2) have "filter (\<lambda>i. i \<noteq> a) (lockedClues st) = lockedClues st"
    by (auto simp add: filter_id_conv)
  with assms(1) show ?thesis
    by (simp add: handlePuzzleSuccess_def revealClue_def)
qed

theorem puzzle_success_unlocked_witness:
  "activePuzzleClueId staleModal = Some 2 \<and> 2 \<notin> set (lockedClues staleModal) \<and>
   lockedClues (handlePuzzleSuccess staleModal) = lockedClues staleModal \<and>
   revealedClues (handlePuzzleSuccess staleModal) = revealedClues staleModal @ [2]"
proof -
  have a: "activePuzzleClueId staleModal = Some 2"
    by (simp add: staleModal_def eval_defs)
  have l: "2 \<notin> set (lockedClues staleModal)"
    by (simp add: staleModal_def eval_defs)
  have r: "2 \<notin> set (revealedClues staleModal)"
    by (simp add: staleModal_def eval_defs)
  show ?thesis
    using a l r puzzle_success_unlocked [OF a l] by simp
qed

section \<open>The initial locks\<close>

lemma drawn_Nil: "drawn d rnd k [] = []"
  by (simp add: drawn_def)

lemma drawn_Cons:
  "drawn d rnd k (c # ls) =
     (if rnd k < chance d then c # drawn d rnd (Suc k) ls else drawn d rnd (Suc k) ls)"
proof -
  have "[k..<k + length (c # ls)] = k # [Suc k..<k + length (c # ls)]"
    by (rule upt_conv_Cons) simp
  moreover have "k + length (c # ls) = Suc k + length ls"
    by simp
  ultimately have "[k..<k + length (c # ls)] = k # [Suc k..<Suc k + length ls]"
    by (simp only:)
  then show ?thesis
    unfolding drawn_def
    by (simp only: zip_Cons_Cons filter.simps list.map fst_conv split: if_split) simp
qed

lemma forEachClue_eq:
  "forEachClue d rnd cs (locks, k) =
     (locks @ map clue_id (drawn d rnd k (filter isLockable cs)),
      k + length (filter isLockable cs))"
  by (induction cs arbitrary: locks k) (simp_all add: drawn_Nil drawn_Cons)

lemma computeLocks_eq:
  "computeLocks d rnd cs = map clue_id (drawn d rnd 0 (filter isLockable cs))"
  by (simp add: computeLocks_def forEachClue_eq)

lemma drawn_subset: "set (drawn d rnd k ls) \<subseteq> set ls"
  by (auto simp add: drawn_def dest: set_zip_leftD)

lemma locked_lockable:
  "i \<in> set (computeLocks d rnd cs) \<Longrightarrow> \<exists>c \<in> set cs. clue_id c = i \<and> isLockable c"
  using drawn_subset [of d rnd 0 "filter isLockable cs"]
  by (auto simp add: computeLocks_eq)

lemma unlockable_not_locked:
  assumes "distinct (map clue_id cs)" and "c \<in> set cs"
    and "clue_type c = Observation \<or> clue_type c = Context"
  shows "clue_id c \<notin> set (computeLocks d rnd cs)"
proof
  assume "clue_id c \<in> set (computeLocks d rnd cs)"
  then obtain c' where c': "c' \<in> set cs" "clue_id c' = clue_id c" "isLockable c'"
    using locked_lockable by blast
  from assms(1) c'(1,2) assms(2) have "c' = c"
    by (meson distinct_map inj_onD)
  with c'(3) assms(3) show False
    by (auto simp add: isLockable_def)
qed

lemma startGame_fulfilled_locked:
  "lockedClues (startGame_fulfilled d newCase rnd st) =
     map clue_id (drawn d rnd 0 (filter isLockable (clues newCase)))"
  by (simp add: startGame_fulfilled_def computeLocks_eq)

lemma drawn_shift: "drawn d (\<lambda>j. f (Suc j)) k ls = drawn d f (Suc k) ls"
  by (induction ls arbitrary: k) (simp_all add: drawn_Nil drawn_Cons)

lemma drawn_nth_Cons:
  "drawn d (\<lambda>k. (r # rs) ! k) 0 (c # ls) =
     (if r < chance d then c # drawn d (\<lambda>k. rs ! k) 0 ls else drawn d (\<lambda>k. rs ! k) 0 ls)"
proof -
  have "drawn d (\<lambda>k. (r # rs) ! k) (Suc 0) ls = drawn d (\<lambda>k. rs ! k) 0 ls"
    using drawn_shift [of d "\<lambda>k. (r # rs) ! k" 0 ls] by simp
  then show ?thesis
    by (simp add: drawn_Cons)
qed

lemma drawn_ids_subset: "set (map clue_id (drawn d rnd k ls)) \<subseteq> set (map clue_id ls)"
  using drawn_subset [of d rnd k ls] by auto

text \<open>
  Counting: of the lists of \<open>length ls\<close> draws from \<open>D\<close>, those after which exactly
  the ids \<open>S\<close> are locked.
\<close>

lemma card_Cons_image:
  "finite A \<Longrightarrow> finite B \<Longrightarrow> card ((\<lambda>(r, rs). r # rs) ` (A \<times> B)) = card A * card B"
proof -
  have "inj_on (\<lambda>(r, rs). r # rs) (A \<times> B)"
    by (auto simp add: inj_on_def)
  then have "card ((\<lambda>(r, rs). r # rs) ` (A \<times> B)) = card (A \<times> B)"
    by (rule card_image)
  then show ?thesis
    by (simp add: card_cartesian_product)
qed

lemma if_insert_eq_in:
  "x \<notin> T \<Longrightarrow> x \<in> S \<Longrightarrow> ((if b then insert x T else T) = S) = (b \<and> T = S - {x})"
  by auto

lemma if_insert_eq_out:
  "x \<notin> T \<Longrightarrow> x \<notin> S \<Longrightarrow> ((if b then insert x T else T) = S) = (\<not> b \<and> T = S)"
  by auto

lemma drawn_nth_Cons_ids:
  "set (map clue_id (drawn d (\<lambda>k. (r # rs) ! k) 0 (c # ls))) =
     (if r < chance d then insert (clue_id c) (set (map clue_id (drawn d (\<lambda>k. rs ! k) 0 ls)))
      else set (map clue_id (drawn d (\<lambda>k. rs ! k) 0 ls)))"
  by (simp add: drawn_nth_Cons)

lemma finite_draw_lists: "finite D \<Longrightarrow> finite {rs. length rs = n \<and> set rs \<subseteq> D \<and> P rs}"
  by (rule finite_subset [OF _ finite_lists_length_eq [of D n]]) auto

lemma count_locked_set:
  assumes "finite D" and "distinct (map clue_id ls)" and "S \<subseteq> set (map clue_id ls)"
  shows "card {rs. length rs = length ls \<and> set rs \<subseteq> D \<and>
                   set (map clue_id (drawn d (\<lambda>k. rs ! k) 0 ls)) = S} =
         card {r \<in> D. r < chance d} ^ card S *
         card {r \<in> D. \<not> r < chance d} ^ (length ls - card S)"
  using assms(2,3)
proof (induction ls arbitrary: S)
  case Nil
  then have "{rs. length rs = length ([] :: Clue list) \<and> set rs \<subseteq> D \<and>
                  set (map clue_id (drawn d (\<lambda>k. rs ! k) 0 [])) = S} = {[]}"
    by (auto simp add: drawn_Nil)
  with Nil show ?case by simp
next
  case (Cons c ls)
  let ?A = "{r \<in> D. r < chance d}"
  let ?B = "{r \<in> D. \<not> r < chance d}"
  let ?X = "\<lambda>T. {rs. length rs = length ls \<and> set rs \<subseteq> D \<and>
                      set (map clue_id (drawn d (\<lambda>k. rs ! k) 0 ls)) = T}"
  have fin: "finite ?A" "finite ?B" "\<And>T. finite (?X T)"
    using assms(1) by (simp_all add: finite_draw_lists)
  have dist: "distinct (map clue_id ls)" and fresh: "clue_id c \<notin> set (map clue_id ls)"
    using Cons.prems(1) by simp_all
  have finS: "finite S"
    using Cons.prems(2) by (rule finite_subset) simp
  have notin: "clue_id c \<notin> set (map clue_id (drawn d rnd 0 ls))" for rnd
    using fresh drawn_ids_subset [of d rnd 0 ls] by blast
  show ?case
  proof (cases "clue_id c \<in> S")
    case True
    have sub: "S - {clue_id c} \<subseteq> set (map clue_id ls)"
      using Cons.prems(2) by auto
    have "{rs. length rs = length (c # ls) \<and> set rs \<subseteq> D \<and>
               set (map clue_id (drawn d (\<lambda>k. rs ! k) 0 (c # ls))) = S} =
          (\<lambda>(r, rs). r # rs) ` (?A \<times> ?X (S - {clue_id c}))"
      (is "?L = ?R")
    proof (rule set_eqI)
      fix rs
      show "rs \<in> ?L \<longleftrightarrow> rs \<in> ?R"
      proof (cases rs)
        case Nil
        then show ?thesis by auto
      next
        case (Cons r rs')
        have "set (map clue_id (drawn d (\<lambda>k. (r # rs') ! k) 0 (c # ls))) = S \<longleftrightarrow>
              r < chance d \<and>
              set (map clue_id (drawn d (\<lambda>k. rs' ! k) 0 ls)) = S - {clue_id c}"
          unfolding drawn_nth_Cons_ids
          using True notin [of "\<lambda>k. rs' ! k"] by (rule if_insert_eq_in [rotated])
        with Cons show ?thesis by auto
      qed
    qed
    then have "card ?L = card ?A * card (?X (S - {clue_id c}))"
      using fin by (simp add: card_Cons_image)
    also have "card (?X (S - {clue_id c})) =
               card ?A ^ card (S - {clue_id c}) * card ?B ^ (length ls - card (S - {clue_id c}))"
      using Cons.IH [OF dist sub] .
    also have "card (S - {clue_id c}) = card S - 1"
      using True finS by simp
    finally have "card ?L = card ?A * (card ?A ^ (card S - 1) * card ?B ^ (length ls - (card S - 1)))" .
    moreover have "0 < card S"
      using True finS by (auto simp add: card_gt_0_iff)
    moreover from this have "card ?A * card ?A ^ (card S - 1) = card ?A ^ card S"
      by (cases "card S") simp_all
    moreover have "length ls - (card S - 1) = length (c # ls) - card S"
      using \<open>0 < card S\<close> by simp
    ultimately show ?thesis
      by (simp add: mult.assoc [symmetric])
  next
    case False
    have sub: "S \<subseteq> set (map clue_id ls)"
      using Cons.prems(2) False by auto
    have le: "card S \<le> length ls"
    proof -
      have "card S \<le> card (set (map clue_id ls))"
        using sub by (intro card_mono) simp_all
      also have "\<dots> = length ls"
        using distinct_card [OF dist] by simp
      finally show ?thesis .
    qed
    have "{rs. length rs = length (c # ls) \<and> set rs \<subseteq> D \<and>
               set (map clue_id (drawn d (\<lambda>k. rs ! k) 0 (c # ls))) = S} =
          (\<lambda>(r, rs). r # rs) ` (?B \<times> ?X S)"
      (is "?L = ?R")
    proof (rule set_eqI)
      fix rs
      show "rs \<in> ?L \<longleftrightarrow> rs \<in> ?R"
      proof (cases rs)
        case Nil
        then show ?thesis by auto
      next
        case (Cons r rs')
        have "set (map clue_id (drawn d (\<lambda>k. (r # rs') ! k) 0 (c # ls))) = S \<longleftrightarrow>
              \<not> r < chance d \<and> set (map clue_id (drawn d (\<lambda>k. rs' ! k) 0 ls)) = S"
          unfolding drawn_nth_Cons_ids
          using False notin [of "\<lambda>k. rs' ! k"] by (rule if_insert_eq_out [rotated])
        with Cons show ?thesis by auto
      qed
    qed
    then have "card ?L = card ?B * card (?X S)"
      using fin by (simp add: card_Cons_image)
    also have "card (?X S) = card ?A ^ card S * card ?B ^ (length ls - card S)"
      using Cons.IH [OF dist sub] .
    finally have "card ?L = card ?B * (card ?A ^ card S * card ?B ^ (length ls - card S))" .
    moreover have "card ?B * card ?B ^ (length ls - card S) = card ?B ^ (length (c # ls) - card S)"
      using le by (simp add: Suc_diff_le)
    ultimately show ?thesis
      by (simp add: mult.left_commute)
  qed
qed

lemma finite_all_draw_lists: "finite D \<Longrightarrow> finite {rs. length rs = n \<and> set rs \<subseteq> D}"
  by (rule finite_subset [OF _ finite_lists_length_eq [of D n]]) auto

lemma card_draw_lists:
  "finite D \<Longrightarrow> card {rs. length rs = n \<and> set rs \<subseteq> D} = card D ^ n"
proof -
  have "{rs. length rs = n \<and> set rs \<subseteq> D} = {rs. set rs \<subseteq> D \<and> length rs = n}"
    by auto
  then show "finite D \<Longrightarrow> ?thesis"
    by (simp add: card_lists_length_eq)
qed

lemma count_locked_id:
  assumes "finite D" and "distinct (map clue_id ls)" and "x \<in> set (map clue_id ls)"
  shows "card {rs. length rs = length ls \<and> set rs \<subseteq> D \<and>
                   x \<in> set (map clue_id (drawn d (\<lambda>k. rs ! k) 0 ls))} =
         card {r \<in> D. r < chance d} * card D ^ (length ls - 1)"
  using assms(2,3)
proof (induction ls)
  case Nil
  then show ?case by simp
next
  case (Cons c ls)
  let ?A = "{r \<in> D. r < chance d}"
  let ?X = "{rs. length rs = length ls \<and> set rs \<subseteq> D \<and>
                 x \<in> set (map clue_id (drawn d (\<lambda>k. rs ! k) 0 ls))}"
  let ?All = "{rs. length rs = length ls \<and> set rs \<subseteq> D}"
  have finA: "finite ?A"
    using assms(1) by simp
  have finX: "finite ?X"
    by (rule finite_draw_lists [OF assms(1)])
  have finAll: "finite ?All"
    by (rule finite_all_draw_lists [OF assms(1)])
  have all: "card ?All = card D ^ length ls"
    by (rule card_draw_lists [OF assms(1)])
  have dist: "distinct (map clue_id ls)" and fresh: "clue_id c \<notin> set (map clue_id ls)"
    using Cons.prems(1) by simp_all
  have notin: "clue_id c \<notin> set (map clue_id (drawn d rnd 0 ls))" for rnd
    using fresh drawn_ids_subset [of d rnd 0 ls] by blast
  show ?case
  proof (cases "x = clue_id c")
    case True
    have "{rs. length rs = length (c # ls) \<and> set rs \<subseteq> D \<and>
               x \<in> set (map clue_id (drawn d (\<lambda>k. rs ! k) 0 (c # ls)))} =
          (\<lambda>(r, rs). r # rs) ` (?A \<times> ?All)"
      (is "?L = ?R")
    proof (rule set_eqI)
      fix rs
      show "rs \<in> ?L \<longleftrightarrow> rs \<in> ?R"
      proof (cases rs)
        case Nil
        then show ?thesis by auto
      next
        case (Cons r rs')
        have "x \<in> set (map clue_id (drawn d (\<lambda>k. (r # rs') ! k) 0 (c # ls))) \<longleftrightarrow> r < chance d"
          unfolding drawn_nth_Cons_ids
          using True notin [of "\<lambda>k. rs' ! k"] by simp
        with Cons show ?thesis by auto
      qed
    qed
    then have "card ?L = card ?A * card ?All"
      using card_Cons_image [OF finA finAll] by simp
    with all show ?thesis by simp
  next
    case False
    then have mem: "x \<in> set (map clue_id ls)"
      using Cons.prems(2) by auto
    then have pos: "0 < length ls"
      by (cases ls) simp_all
    have "{rs. length rs = length (c # ls) \<and> set rs \<subseteq> D \<and>
               x \<in> set (map clue_id (drawn d (\<lambda>k. rs ! k) 0 (c # ls)))} =
          (\<lambda>(r, rs). r # rs) ` (D \<times> ?X)"
      (is "?L = ?R")
    proof (rule set_eqI)
      fix rs
      show "rs \<in> ?L \<longleftrightarrow> rs \<in> ?R"
      proof (cases rs)
        case Nil
        then show ?thesis by auto
      next
        case (Cons r rs')
        have "x \<in> set (map clue_id (drawn d (\<lambda>k. (r # rs') ! k) 0 (c # ls))) \<longleftrightarrow>
              x \<in> set (map clue_id (drawn d (\<lambda>k. rs' ! k) 0 ls))"
          unfolding drawn_nth_Cons_ids
          using False by simp
        with Cons show ?thesis by auto
      qed
    qed
    then have "card ?L = card D * card ?X"
      using card_Cons_image [OF assms(1) finX] by simp
    also have "card ?X = card ?A * card D ^ (length ls - 1)"
      using Cons.IH [OF dist mem] .
    finally have "card ?L = card ?A * (card D * card D ^ (length ls - 1))"
      by (simp add: mult.left_commute)
    moreover have "card D * card D ^ (length ls - 1) = card D ^ (length (c # ls) - 1)"
      using pos by (cases "length ls") simp_all
    ultimately show ?thesis by simp
  qed
qed

lemma card_split_chance:
  assumes "finite D"
  shows "card {r \<in> D. r < chance d} + card {r \<in> D. \<not> r < chance d} = card D"
proof -
  have "{r \<in> D. r < chance d} \<union> {r \<in> D. \<not> r < chance d} = D"
    and "{r \<in> D. r < chance d} \<inter> {r \<in> D. \<not> r < chance d} = {}"
    by auto
  then show ?thesis
    using assms card_Un_disjoint [of "{r \<in> D. r < chance d}" "{r \<in> D. \<not> r < chance d}"]
    by simp
qed

lemma prob_locked_id:
  assumes "finite D" and "D \<noteq> {}" and "distinct (map clue_id ls)"
    and "x \<in> set (map clue_id ls)"
  shows "prob D (length ls) (\<lambda>rs. x \<in> set (map clue_id (drawn d (\<lambda>k. rs ! k) 0 ls))) =
         lockChance D d"
proof -
  have N: "0 < card D"
    using assms(1,2) by (simp add: card_gt_0_iff)
  have pos: "0 < length ls"
    using assms(4) by (cases ls) simp_all
  then have p: "card D ^ length ls = card D * card D ^ (length ls - 1)"
    by (cases "length ls") simp_all
  have c: "card {rs. length rs = length ls \<and> set rs \<subseteq> D \<and>
                 x \<in> set (map clue_id (drawn d (\<lambda>k. rs ! k) 0 ls))} =
           card {r \<in> D. r < chance d} * card D ^ (length ls - 1)"
    by (rule count_locked_id [OF assms(1,3,4)])
  have t: "card {rs. length rs = length ls \<and> set rs \<subseteq> D} = card D * card D ^ (length ls - 1)"
    using card_draw_lists [OF assms(1), of "length ls"] p by simp
  show ?thesis
    unfolding prob_def lockChance_def c t using N by simp
qed

lemma prob_locked_set:
  assumes "finite D" and "D \<noteq> {}" and "distinct (map clue_id ls)"
    and "S \<subseteq> set (map clue_id ls)"
  shows "prob D (length ls) (\<lambda>rs. set (map clue_id (drawn d (\<lambda>k. rs ! k) 0 ls)) = S) =
         lockChance D d ^ card S * (1 - lockChance D d) ^ (length ls - card S)"
proof -
  let ?a = "card {r \<in> D. r < chance d}"
  let ?b = "card {r \<in> D. \<not> r < chance d}"
  have N: "0 < card D"
    using assms(1,2) by (simp add: card_gt_0_iff)
  have le: "card S \<le> length ls"
  proof -
    have "card S \<le> card (set (map clue_id ls))"
      using assms(4) by (intro card_mono) simp_all
    also have "\<dots> = length ls"
      using distinct_card [OF assms(3)] by simp
    finally show ?thesis .
  qed
  have one: "1 - lockChance D d = real ?b / real (card D)"
  proof -
    have "real ?a + real ?b = real (card D)"
      using card_split_chance [OF assms(1), of d] by (metis of_nat_add)
    then show ?thesis
      using N by (simp add: lockChance_def field_simps)
  qed
  have split: "real (card D) ^ length ls =
               real (card D) ^ card S * real (card D) ^ (length ls - card S)"
    using le by (simp add: power_add [symmetric])
  have c: "card {rs. length rs = length ls \<and> set rs \<subseteq> D \<and>
                 set (map clue_id (drawn d (\<lambda>k. rs ! k) 0 ls)) = S} =
           ?a ^ card S * ?b ^ (length ls - card S)"
    by (rule count_locked_set [OF assms(1,3,4)])
  have t: "card {rs. length rs = length ls \<and> set rs \<subseteq> D} = card D ^ length ls"
    by (rule card_draw_lists [OF assms(1)])
  have "prob D (length ls) (\<lambda>rs. set (map clue_id (drawn d (\<lambda>k. rs ! k) 0 ls)) = S) =
        (real ?a ^ card S * real ?b ^ (length ls - card S)) / real (card D) ^ length ls"
    unfolding prob_def c t by simp
  also have "\<dots> = (real ?a / real (card D)) ^ card S *
                   (real ?b / real (card D)) ^ (length ls - card S)"
    unfolding split by (simp add: power_divide)
  finally have f:
    "prob D (length ls) (\<lambda>rs. set (map clue_id (drawn d (\<lambda>k. rs ! k) 0 ls)) = S) =
       (real ?a / real (card D)) ^ card S * (real ?b / real (card D)) ^ (length ls - card S)" .
  show ?thesis
    unfolding one f by (simp add: lockChance_def)
qed

lemma grid53_below:
  assumes "c \<le> 9007199254740992"
  shows "card {r \<in> grid53. r < real c / 9007199254740992} = c"
proof -
  let ?f = "\<lambda>j::nat. real j / 9007199254740992"
  have "{r \<in> grid53. r < real c / 9007199254740992} = ?f ` {j. j < c}"
    using assms by (auto simp add: grid53_def divide_less_cancel)
  moreover have "inj_on ?f {j. j < c}"
    by (simp add: inj_on_def)
  ultimately have "card {r \<in> grid53. r < real c / 9007199254740992} = card {j::nat. j < c}"
    by (simp add: card_image)
  then show ?thesis by simp
qed

lemma grid53_card: "finite grid53 \<and> card grid53 = 9007199254740992"
proof -
  let ?f = "\<lambda>j::nat. real j / 9007199254740992"
  have "inj_on ?f {j. j < 9007199254740992}"
    by (simp add: inj_on_def)
  then have "card grid53 = card {j::nat. j < 9007199254740992}"
    unfolding grid53_def by (rule card_image)
  then show ?thesis
    by (simp add: grid53_def)
qed

lemma grid53_lockChance: "lockChance grid53 d = chance d"
proof -
  have "card {r \<in> grid53. r < real (5404319552844595::nat) / 9007199254740992} = 5404319552844595"
    by (rule grid53_below) simp
  moreover have "card {r \<in> grid53. r < real (3602879701896397::nat) / 9007199254740992} = 3602879701896397"
    by (rule grid53_below) simp
  ultimately show ?thesis
    using grid53_card by (simp add: lockChance_def chance_def)
qed

lemma chance_values:
  "chance Hard = 5404319552844595 / 2 ^ 53 \<and>
   chance Medium = 3602879701896397 / 2 ^ 53 \<and>
   chance Easy = 3602879701896397 / 2 ^ 53 \<and>
   abs (chance Hard - 6 / 10) < 1 / 2 ^ 54 \<and>
   abs (chance Medium - 4 / 10) < 1 / 2 ^ 54 \<and>
   abs (chance Easy - 4 / 10) < 1 / 2 ^ 54"
  by (simp add: chance_def)

text \<open>
  C3. The locks that \<open>startGame\<close> stores when \<open>generateMystery\<close> is fulfilled, for
  every case, difficulty, sequence of draws of \<open>Math.random()\<close> and earlier state.
  The stored ids are exactly the ids of the lockable clues whose own draw is below the
  chance, one fresh draw for each lockable clue and none for the others. Every stored
  id is the id of a clue of type Physical Object or Testimony, and when the ids of the
  case are unique the id of an Observation or Context clue is not stored. The chance
  is the double \<open>0.6\<close> for Hard and the double \<open>0.4\<close> for Easy and Medium, each less
  than \<open>2^-54\<close> away from 6/10 and 4/10. When the draws are uniform over a finite set
  \<open>D\<close> of doubles and independent, and the ids of the case are unique, each lockable
  clue is locked with probability \<open>lockChance D d\<close>, and the locked set is any given
  set \<open>S\<close> of ids of lockable clues with probability
  \<open>p ^ card S * (1 - p) ^ (n - card S)\<close>, where \<open>p\<close> is \<open>lockChance D d\<close> and \<open>n\<close>
  the number of lockable clues: the locks are independent of each other. For the
  draws of 53 random bits, \<open>lockChance\<close> is the chance itself.
\<close>

theorem initial_locks:
  "lockedClues (startGame_fulfilled d newCase rnd st) =
     map clue_id (drawn d rnd 0 (filter isLockable (clues newCase))) \<and>
   (\<forall>i \<in> set (lockedClues (startGame_fulfilled d newCase rnd st)).
      \<exists>c \<in> set (clues newCase).
        clue_id c = i \<and> (clue_type c = Physical \<or> clue_type c = Testimony)) \<and>
   (\<forall>c \<in> set (clues newCase).
      distinct (map clue_id (clues newCase)) \<and>
      (clue_type c = Observation \<or> clue_type c = Context)
      \<longrightarrow> clue_id c \<notin> set (lockedClues (startGame_fulfilled d newCase rnd st))) \<and>
   chance Hard = 5404319552844595 / 2 ^ 53 \<and>
   chance Medium = 3602879701896397 / 2 ^ 53 \<and>
   chance Easy = 3602879701896397 / 2 ^ 53 \<and>
   abs (chance Hard - 6 / 10) < 1 / 2 ^ 54 \<and>
   abs (chance Medium - 4 / 10) < 1 / 2 ^ 54 \<and>
   abs (chance Easy - 4 / 10) < 1 / 2 ^ 54 \<and>
   (finite D \<and> D \<noteq> {} \<and> distinct (map clue_id (clues newCase)) \<longrightarrow>
      (\<forall>c \<in> set (clues newCase). isLockable c \<longrightarrow>
         prob D (length (filter isLockable (clues newCase)))
           (\<lambda>rs. clue_id c \<in>
              set (lockedClues (startGame_fulfilled d newCase (\<lambda>k. rs ! k) st))) =
         lockChance D d) \<and>
      (\<forall>S. S \<subseteq> set (map clue_id (filter isLockable (clues newCase))) \<longrightarrow>
         prob D (length (filter isLockable (clues newCase)))
           (\<lambda>rs. set (lockedClues (startGame_fulfilled d newCase (\<lambda>k. rs ! k) st)) = S) =
         lockChance D d ^ card S *
         (1 - lockChance D d) ^ (length (filter isLockable (clues newCase)) - card S))) \<and>
   finite grid53 \<and> card grid53 = 2 ^ 53 \<and> lockChance grid53 d = chance d"
proof -
  let ?ls = "filter isLockable (clues newCase)"
  have locked: "lockedClues (startGame_fulfilled d newCase r st) = map clue_id (drawn d r 0 ?ls)" for r
    by (rule startGame_fulfilled_locked)
  have only: "\<forall>i \<in> set (lockedClues (startGame_fulfilled d newCase rnd st)).
      \<exists>c \<in> set (clues newCase).
        clue_id c = i \<and> (clue_type c = Physical \<or> clue_type c = Testimony)"
    using locked_lockable [of _ d rnd "clues newCase"]
    by (simp add: startGame_fulfilled_def isLockable_def)
  have never: "\<forall>c \<in> set (clues newCase).
      distinct (map clue_id (clues newCase)) \<and>
      (clue_type c = Observation \<or> clue_type c = Context)
      \<longrightarrow> clue_id c \<notin> set (lockedClues (startGame_fulfilled d newCase rnd st))"
    using unlockable_not_locked [of "clues newCase" _ d rnd]
    by (simp add: startGame_fulfilled_def)
  have probs:
    "(\<forall>c \<in> set (clues newCase). isLockable c \<longrightarrow>
         prob D (length ?ls)
           (\<lambda>rs. clue_id c \<in>
              set (lockedClues (startGame_fulfilled d newCase (\<lambda>k. rs ! k) st))) =
         lockChance D d) \<and>
      (\<forall>S. S \<subseteq> set (map clue_id ?ls) \<longrightarrow>
         prob D (length ?ls)
           (\<lambda>rs. set (lockedClues (startGame_fulfilled d newCase (\<lambda>k. rs ! k) st)) = S) =
         lockChance D d ^ card S * (1 - lockChance D d) ^ (length ?ls - card S))"
    if D: "finite D" "D \<noteq> {}" and dist: "distinct (map clue_id (clues newCase))"
  proof -
    have dl: "distinct (map clue_id ?ls)"
      using dist by (rule distinct_map_filter)
    have "prob D (length ?ls) (\<lambda>rs. clue_id c \<in> set (map clue_id (drawn d (\<lambda>k. rs ! k) 0 ?ls))) =
          lockChance D d"
      if "c \<in> set (clues newCase)" and "isLockable c" for c
      using that by (intro prob_locked_id [OF D dl]) simp
    moreover have "prob D (length ?ls) (\<lambda>rs. set (map clue_id (drawn d (\<lambda>k. rs ! k) 0 ?ls)) = S) =
          lockChance D d ^ card S * (1 - lockChance D d) ^ (length ?ls - card S)"
      if "S \<subseteq> set (map clue_id ?ls)" for S
      using that by (rule prob_locked_set [OF D dl])
    ultimately show ?thesis
      unfolding locked by blast
  qed
  have grid: "finite grid53 \<and> card grid53 = 2 ^ 53 \<and> lockChance grid53 d = chance d"
    using grid53_card grid53_lockChance [of d] by simp
  show ?thesis
    using locked [of rnd] only never chance_values probs grid by blast
qed

theorem initial_locks_witness:
  "lockedClues (startGame_fulfilled Hard donutCase draws (startGame Hard initialApp)) = [2] \<and>
   lockedClues (run [DifficultyClicked Hard, GenerateFulfilled 0 donutCase draws]
     (mount (Some rookie) True)) = [2] \<and>
   distinct (map clue_id (clues donutCase)) \<and>
   1 \<notin> set (lockedClues (startGame_fulfilled Hard donutCase draws (startGame Hard initialApp))) \<and>
   4 \<notin> set (lockedClues (startGame_fulfilled Hard donutCase draws (startGame Hard initialApp))) \<and>
   prob grid53 2
     (\<lambda>rs. 2 \<in> set (lockedClues (startGame_fulfilled Hard donutCase (\<lambda>k. rs ! k) initialApp))) =
     chance Hard \<and>
   prob grid53 2
     (\<lambda>rs. set (lockedClues (startGame_fulfilled Hard donutCase (\<lambda>k. rs ! k) initialApp)) = {2}) =
     chance Hard * (1 - chance Hard)"
proof -
  let ?c = "\<lparr>clue_id = 2, clue_text = ''The janitor saw nothing'', clue_type = Testimony,
             isRedHerring = True\<rparr>"
  have l: "lockedClues (startGame_fulfilled Hard donutCase draws (startGame Hard initialApp)) = [2]"
    by (simp add: eval_defs)
  have s: "lockedClues (run [DifficultyClicked Hard, GenerateFulfilled 0 donutCase draws]
     (mount (Some rookie) True)) = [2]"
    by (simp add: eval_defs)
  have d: "distinct (map clue_id (clues donutCase))"
    by (simp add: eval_defs)
  have n: "length (filter isLockable (clues donutCase)) = 2"
    by (simp add: eval_defs)
  have c: "?c \<in> set (clues donutCase)" "isLockable ?c" "clue_id ?c = 2"
    by (simp_all add: eval_defs)
  have sub: "{2} \<subseteq> set (map clue_id (filter isLockable (clues donutCase)))"
    by (simp add: eval_defs)
  note T = initial_locks [of Hard donutCase draws initialApp grid53]
  from T have g: "finite grid53" "card grid53 = 2 ^ 53" "lockChance grid53 Hard = chance Hard"
    by blast+
  from g(2) have ne: "grid53 \<noteq> {}"
    by auto
  from T g(1) ne d have
    m: "\<forall>c \<in> set (clues donutCase). isLockable c \<longrightarrow>
         prob grid53 (length (filter isLockable (clues donutCase)))
           (\<lambda>rs. clue_id c \<in>
              set (lockedClues (startGame_fulfilled Hard donutCase (\<lambda>k. rs ! k) initialApp))) =
         lockChance grid53 Hard"
    and j: "\<forall>S. S \<subseteq> set (map clue_id (filter isLockable (clues donutCase))) \<longrightarrow>
         prob grid53 (length (filter isLockable (clues donutCase)))
           (\<lambda>rs. set (lockedClues (startGame_fulfilled Hard donutCase (\<lambda>k. rs ! k) initialApp)) = S) =
         lockChance grid53 Hard ^ card S *
         (1 - lockChance grid53 Hard) ^ (length (filter isLockable (clues donutCase)) - card S)"
    by blast+
  have p1: "prob grid53 2
     (\<lambda>rs. 2 \<in> set (lockedClues (startGame_fulfilled Hard donutCase (\<lambda>k. rs ! k) initialApp))) =
     chance Hard"
    using m [rule_format, OF c(1,2)] unfolding n c(3) g(3) .
  have p2: "prob grid53 2
     (\<lambda>rs. set (lockedClues (startGame_fulfilled Hard donutCase (\<lambda>k. rs ! k) initialApp)) = {2}) =
     chance Hard * (1 - chance Hard)"
    using j [rule_format, OF sub] unfolding n g(3) by simp
  show ?thesis
    using l s d p1 p2 by simp
qed

section \<open>Submitting a solution\<close>

text \<open>
  In \<open>lineup blankCorrect []\<close> the player has clicked the suspect whose id is the
  empty string, which is the correct one; \<open>submitSolution\<close> returns at its guard,
  since the empty string is falsy: no celebration, no reward, still Solving.
\<close>

theorem submit_empty_id_ignored:
  "mystery (lineup blankCorrect []) = Some blankCorrect \<and>
   selectedOption (lineup blankCorrect []) = Some (correctOptionId blankCorrect) \<and>
   gameState (submitSolution (lineup blankCorrect [])) = Solving \<and>
   \<not> isCelebrating (submitSolution (lineup blankCorrect [])) \<and>
   addXpCalls (submitSolution (lineup blankCorrect [])) = []"
  by (simp add: blankCorrect_def eval_defs)

text \<open>
  C4, as the code has it. With an active case and a selected suspect id that is not
  the empty string: if the id is the case's \<open>correctOptionId\<close> the phase becomes
  Playing with the celebration running, and Success with the celebration over once
  \<open>handleCelebrationComplete\<close> has run; if it is any other id the phase becomes
  Failure; so the submission takes the celebration branch exactly when the id is the
  correct one.
\<close>

theorem submit_evaluates:
  assumes "mystery st = Some m" and "selectedOption st = Some s" and "s \<noteq> []"
  shows "(s = correctOptionId m \<longrightarrow>
            gameState (submitSolution st) = Playing \<and> isCelebrating (submitSolution st) \<and>
            gameState (handleCelebrationComplete (submitSolution st)) = Success \<and>
            \<not> isCelebrating (handleCelebrationComplete (submitSolution st))) \<and>
         (s \<noteq> correctOptionId m \<longrightarrow> gameState (submitSolution st) = Failure) \<and>
         ((gameState (submitSolution st) = Playing \<and> isCelebrating (submitSolution st))
            = (s = correctOptionId m))"
  using assms by (simp add: submitSolution_def handleCelebrationComplete_def)

theorem submit_evaluates_witness:
  "gameState (submitSolution (lineup donutCase ''B'')) = Playing \<and>
   isCelebrating (submitSolution (lineup donutCase ''B'')) \<and>
   gameState (handleCelebrationComplete (submitSolution (lineup donutCase ''B''))) = Success \<and>
   gameState (submitSolution (lineup donutCase ''A'')) = Failure"
proof -
  have mB: "mystery (lineup donutCase ''B'') = Some donutCase"
    by (simp add: eval_defs)
  have sB: "selectedOption (lineup donutCase ''B'') = Some ''B''"
    by (simp add: eval_defs)
  have mA: "mystery (lineup donutCase ''A'') = Some donutCase"
    by (simp add: eval_defs)
  have sA: "selectedOption (lineup donutCase ''A'') = Some ''A''"
    by (simp add: eval_defs)
  have c: "correctOptionId donutCase = ''B''"
    by (simp add: eval_defs)
  show ?thesis
    using submit_evaluates [OF mB sB] submit_evaluates [OF mA sA] c by simp
qed

text \<open>
  C5. The reward is 50 for Easy, 100 for Medium and 200 for Hard, a total function of
  the difficulty; and a submission of the correct suspect stores the reward of the
  case's difficulty in \<open>xpGained\<close> and passes exactly that amount to \<open>addXp\<close>, in
  one call.
\<close>

theorem reward_by_difficulty:
  "xp Easy = 50 \<and> xp Medium = 100 \<and> xp Hard = 200 \<and>
   (mystery st = Some m \<and> selectedOption st = Some (correctOptionId m) \<and> correctOptionId m \<noteq> []
      \<longrightarrow> xpGained (submitSolution st) = xp (difficulty m) \<and>
          addXpCalls (submitSolution st) = addXpCalls st @ [xp (difficulty m)] \<and>
          addXpPending (submitSolution st) = Suc (addXpPending st))"
  by (simp add: submitSolution_def)

theorem reward_by_difficulty_witness:
  "mystery (lineup donutCase ''B'') = Some donutCase \<and>
   selectedOption (lineup donutCase ''B'') = Some (correctOptionId donutCase) \<and>
   correctOptionId donutCase \<noteq> [] \<and> difficulty donutCase = Hard \<and>
   xpGained (submitSolution (lineup donutCase ''B'')) = 200 \<and>
   addXpCalls (submitSolution (lineup donutCase ''B'')) = [200]"
proof -
  have m: "mystery (lineup donutCase ''B'') = Some donutCase"
    by (simp add: eval_defs)
  have s: "selectedOption (lineup donutCase ''B'') = Some (correctOptionId donutCase)"
    by (simp add: eval_defs)
  have c: "correctOptionId donutCase \<noteq> []"
    by (simp add: eval_defs)
  have d: "difficulty donutCase = Hard"
    by (simp add: eval_defs)
  have a: "addXpCalls (lineup donutCase ''B'') = []"
    by (simp add: eval_defs)
  show ?thesis
    using m s c d a reward_by_difficulty [of "lineup donutCase ''B''" donutCase] by simp
qed

text \<open>
  In \<open>lineup blankWrong []\<close> the player has clicked the suspect whose id is the empty
  string, which is not the correct one; \<open>submitSolution\<close> returns at its guard and the
  phase stays Solving.
\<close>

theorem submit_empty_wrong_id_ignored:
  "mystery (lineup blankWrong []) = Some blankWrong \<and>
   selectedOption (lineup blankWrong []) = Some [] \<and>
   [] \<noteq> correctOptionId blankWrong \<and>
   gameState (submitSolution (lineup blankWrong [])) = Solving"
  by (simp add: blankWrong_def eval_defs)

text \<open>
  C6, as the code has it. With an active case and a selected suspect id other than
  the case's \<open>correctOptionId\<close>: if the id is not the empty string, the submission
  changes the phase to Failure and nothing else; if it is the empty string, the
  submission changes nothing; in both cases \<open>addXp\<close> is not called and the player
  profile is unchanged.
\<close>

theorem submit_incorrect:
  assumes "mystery st = Some m" and "selectedOption st = Some s" and "s \<noteq> correctOptionId m"
  shows "(s \<noteq> [] \<longrightarrow> submitSolution st = st\<lparr>gameState := Failure\<rparr>) \<and>
         (s = [] \<longrightarrow> submitSolution st = st) \<and>
         addXpCalls (submitSolution st) = addXpCalls st \<and>
         addXpPending (submitSolution st) = addXpPending st \<and>
         user (submitSolution st) = user st"
  using assms by (simp add: submitSolution_def)

theorem submit_incorrect_witness:
  "gameState (submitSolution (lineup donutCase ''A'')) = Failure \<and>
   addXpCalls (submitSolution (lineup donutCase ''A'')) = [] \<and>
   user (submitSolution (lineup donutCase ''A'')) = Some rookie"
proof -
  have m: "mystery (lineup donutCase ''A'') = Some donutCase"
    by (simp add: eval_defs)
  have s: "selectedOption (lineup donutCase ''A'') = Some ''A''"
    by (simp add: eval_defs)
  have c: "''A'' \<noteq> correctOptionId donutCase"
    by (simp add: eval_defs)
  have a: "addXpCalls (lineup donutCase ''A'') = []"
    by (simp add: eval_defs)
  have u: "user (lineup donutCase ''A'') = Some rookie"
    by (simp add: eval_defs)
  show ?thesis
    using a u submit_incorrect [OF m s c] by simp
qed

text \<open>
  C9. When no suspect is selected (\<open>selectedOption\<close> is \<open>null\<close> or the empty string)
  or no case is active, \<open>submitSolution\<close> returns the state it was given: the phase,
  the log of \<open>addXp\<close> calls and every other field are unchanged.
\<close>

theorem submit_guard_noop:
  assumes "\<not> truthy (selectedOption st) \<or> mystery st = None"
  shows "submitSolution st = st"
  using assms by (auto simp add: submitSolution_def)

theorem submit_guard_noop_witness:
  "selectedOption (run (toLineup donutCase) (mount (Some rookie) True)) = None \<and>
   submitSolution (run (toLineup donutCase) (mount (Some rookie) True)) =
     run (toLineup donutCase) (mount (Some rookie) True) \<and>
   mystery (resetGame (lineup donutCase ''B'')) = None \<and>
   selectedOption (resetGame (lineup donutCase ''B'')) = Some ''B'' \<and>
   submitSolution (resetGame (lineup donutCase ''B'')) = resetGame (lineup donutCase ''B'')"
proof -
  have s: "selectedOption (run (toLineup donutCase) (mount (Some rookie) True)) = None"
    by (simp add: eval_defs)
  have m: "mystery (resetGame (lineup donutCase ''B'')) = None"
    by (simp add: eval_defs)
  have p: "selectedOption (resetGame (lineup donutCase ''B'')) = Some ''B''"
    by (simp add: eval_defs)
  show ?thesis
    using s m p
      submit_guard_noop [of "run (toLineup donutCase) (mount (Some rookie) True)"]
      submit_guard_noop [of "resetGame (lineup donutCase ''B'')"]
    by simp
qed

section \<open>Invariants of a session\<close>

lemma run_append: "run (es @ fs) st = run fs (run es st)"
  by (induction es arbitrary: st) simp_all

lemma step_xpGained:
  "xpGained (step e st) = (case correctSolve e st of Some x \<Rightarrow> x | None \<Rightarrow> xpGained st)"
  by (cases e) (auto simp add: correctSolve_def handler_defs split: option.splits)

lemma run_xpGained: "xpGained (run es st) = lastReward es st (xpGained st)"
  by (induction es arbitrary: st) (simp_all add: step_xpGained)

lemma mount_xpGained: "xpGained (mount cu k) = 0"
  by (simp add: mount_def initialApp_def Let_def split: option.splits)

lemma step_solving:
  assumes "gameState st = Solving \<longrightarrow> revealedClues st \<noteq> []"
  shows "gameState (step e st) = Solving \<longrightarrow> revealedClues (step e st) \<noteq> []"
  using assms
  by (cases e) (auto simp add: handler_defs split: option.splits)

lemma run_solving:
  "gameState st = Solving \<longrightarrow> revealedClues st \<noteq> [] \<Longrightarrow>
   gameState (run es st) = Solving \<longrightarrow> revealedClues (run es st) \<noteq> []"
  by (induction es arbitrary: st) (simp_all add: step_solving)

lemma mount_not_solving: "gameState (mount cu k) \<noteq> Solving"
  by (simp add: mount_def initialApp_def Let_def split: option.splits)

text \<open>
  C7. In the Failure phase, with the main screen rendered, the "reveal answer" button
  changes the phase to Success and changes nothing else: \<open>addXp\<close> is not called, no
  call of it becomes pending, and the player profile and the displayed reward are what
  they were.
\<close>

theorem reveal_answer_no_reward:
  assumes "gameState st = Failure" and "\<not> errorScreen st"
  shows "step RevealAnswerClicked st = st\<lparr>gameState := Success\<rparr> \<and>
         gameState (step RevealAnswerClicked st) = Success \<and>
         addXpCalls (step RevealAnswerClicked st) = addXpCalls st \<and>
         addXpPending (step RevealAnswerClicked st) = addXpPending st \<and>
         user (step RevealAnswerClicked st) = user st"
  using assms by (simp add: mainScreen_def authScreen_def revealAnswer_def setGameState_def)

theorem reveal_answer_no_reward_witness:
  "gameState (run solveThenGiveUp (mount (Some rookie) True)) = Failure \<and>
   \<not> errorScreen (run solveThenGiveUp (mount (Some rookie) True)) \<and>
   gameState (step RevealAnswerClicked (run solveThenGiveUp (mount (Some rookie) True))) = Success \<and>
   addXpCalls (step RevealAnswerClicked (run solveThenGiveUp (mount (Some rookie) True))) = [200] \<and>
   user (step RevealAnswerClicked (run solveThenGiveUp (mount (Some rookie) True))) = Some rookie"
proof -
  have g: "gameState (run solveThenGiveUp (mount (Some rookie) True)) = Failure"
    by (simp add: solveThenGiveUp_def eval_defs)
  have e: "\<not> errorScreen (run solveThenGiveUp (mount (Some rookie) True))"
    by (simp add: solveThenGiveUp_def eval_defs)
  have a: "addXpCalls (run solveThenGiveUp (mount (Some rookie) True)) = [200]"
    by (simp add: solveThenGiveUp_def eval_defs)
  have u: "user (run solveThenGiveUp (mount (Some rookie) True)) = Some rookie"
    by (simp add: solveThenGiveUp_def eval_defs)
  show ?thesis
    using g e a u reveal_answer_no_reward [OF g e] by simp
qed

text \<open>
  C8. In every state that a session reaches from the mounted component, whatever the
  events and their order, the phase is Solving only if at least one clue is revealed;
  and a click on Solve Case while no clue is revealed leaves the state as it is.
\<close>

theorem solving_has_revealed:
  "(gameState (run es (mount cu k)) = Solving \<longrightarrow> revealedClues (run es (mount cu k)) \<noteq> []) \<and>
   (revealedClues st = [] \<longrightarrow> step SolveClicked st = st)"
  using run_solving [of "mount cu k" es] mount_not_solving [of cu k] by simp

theorem solving_has_revealed_witness:
  "gameState (run (toLineup donutCase) (mount (Some rookie) True)) = Solving \<and>
   revealedClues (run (toLineup donutCase) (mount (Some rookie) True)) \<noteq> [] \<and>
   revealedClues (run [DifficultyClicked Hard, GenerateFulfilled 0 donutCase draws]
     (mount (Some rookie) True)) = [] \<and>
   gameState (run [DifficultyClicked Hard, GenerateFulfilled 0 donutCase draws, SolveClicked]
     (mount (Some rookie) True)) = Playing"
proof -
  have g: "gameState (run (toLineup donutCase) (mount (Some rookie) True)) = Solving"
    by (simp add: eval_defs)
  have r: "revealedClues (run [DifficultyClicked Hard, GenerateFulfilled 0 donutCase draws]
     (mount (Some rookie) True)) = []"
    by (simp add: eval_defs)
  have p: "gameState (run [DifficultyClicked Hard, GenerateFulfilled 0 donutCase draws]
     (mount (Some rookie) True)) = Playing"
    by (simp add: eval_defs)
  have s: "run [DifficultyClicked Hard, GenerateFulfilled 0 donutCase draws, SolveClicked]
     (mount (Some rookie) True) =
     step SolveClicked (run [DifficultyClicked Hard, GenerateFulfilled 0 donutCase draws]
     (mount (Some rookie) True))"
    by simp
  show ?thesis
    using g r p
      solving_has_revealed [of "toLineup donutCase" "Some rookie" True
        "run [DifficultyClicked Hard, GenerateFulfilled 0 donutCase draws] (mount (Some rookie) True)"]
    unfolding s by simp
qed

text \<open>
  C10. \<open>xpGained\<close> is 0 when the component mounts; an event changes it only if it is
  a submission of the correct suspect, which sets it to the reward of the case;
  \<open>startGame\<close> and the "reveal answer" button leave it as it is. Hence after any
  session that ends with "reveal answer" the Success screen shows the reward of the
  last correct submission of the session, and 0 if there was none, while that button
  adds no call of \<open>addXp\<close>.
\<close>

theorem xpGained_last_reward:
  "xpGained (mount cu k) = 0 \<and>
   xpGained (step e st) = (case correctSolve e st of Some x \<Rightarrow> x | None \<Rightarrow> xpGained st) \<and>
   xpGained (startGame d st) = xpGained st \<and>
   xpGained (revealAnswer st) = xpGained st \<and>
   xpGained (run (es @ [RevealAnswerClicked]) (mount cu k)) = lastReward es (mount cu k) 0 \<and>
   addXpCalls (step RevealAnswerClicked st) = addXpCalls st"
proof -
  have "xpGained (run (es @ [RevealAnswerClicked]) (mount cu k)) =
        xpGained (run es (mount cu k))"
    by (simp add: run_append revealAnswer_def setGameState_def)
  then have "xpGained (run (es @ [RevealAnswerClicked]) (mount cu k)) = lastReward es (mount cu k) 0"
    by (simp add: run_xpGained mount_xpGained)
  then show ?thesis
    by (simp add: mount_xpGained step_xpGained startGame_def revealAnswer_def setGameState_def)
qed

theorem xpGained_last_reward_witness:
  "gameState (run (solveThenGiveUp @ [RevealAnswerClicked]) (mount (Some rookie) True)) = Success \<and>
   xpGained (run (solveThenGiveUp @ [RevealAnswerClicked]) (mount (Some rookie) True)) = 200 \<and>
   lastReward solveThenGiveUp (mount (Some rookie) True) 0 = 200"
proof -
  have g: "gameState (run (solveThenGiveUp @ [RevealAnswerClicked]) (mount (Some rookie) True)) = Success"
    by (simp add: solveThenGiveUp_def eval_defs)
  have x: "xpGained (run (solveThenGiveUp @ [RevealAnswerClicked]) (mount (Some rookie) True)) = 200"
    by (simp add: solveThenGiveUp_def eval_defs)
  show ?thesis
    using g x xpGained_last_reward [of "Some rookie" True _ _ _ solveThenGiveUp] by simp
qed

end
